theory Spec2Isabelle
  imports Main
begin

section \<open>Step validation: the yup schemas and their resolver\<close>

text \<open>
  The components validate their forms with schemas built from the yup combinators
  \<^verbatim>\<open>yup.string().required(msg).min(n, msg)\<close> and \<^verbatim>\<open>yup.mixed().test(name, msg, fn)\<close>,
  handed to react-hook-form through \<^verbatim>\<open>yupResolver\<close>. A schema is the list of its tests in
  the order the combinators add them; each test is its message and its predicate.
  \<^verbatim>\<open>required\<close> on a string passes when the value has a non-zero length, \<^verbatim>\<open>min(n)\<close> when
  \<^verbatim>\<open>value.length >= n\<close>. No schema of the repository calls \<^verbatim>\<open>.trim()\<close>, so the tests
  see the raw input. The resolver runs every test (\<^verbatim>\<open>abortEarly: false\<close>) and keeps
  the first message of each field.
\<close>

datatype validation_result = Valid | Invalid "(string \<times> string) list"

type_synonym 'a yup_schema = "(string \<times> ('a \<Rightarrow> bool)) list"

definition yup_string :: "string yup_schema" where
  "yup_string = []"

definition required :: "string \<Rightarrow> string yup_schema \<Rightarrow> string yup_schema" where
  "required msg sch = sch @ [(msg, \<lambda>v. length v \<noteq> 0)]"

definition min_len :: "nat \<Rightarrow> string \<Rightarrow> string yup_schema \<Rightarrow> string yup_schema" where
  "min_len n msg sch = sch @ [(msg, \<lambda>v. n \<le> length v)]"

definition failed_tests :: "'a yup_schema \<Rightarrow> 'a \<Rightarrow> string list" where
  "failed_tests sch v = map fst (filter (\<lambda>t. \<not> snd t v) sch)"

definition yupResolver :: "string \<Rightarrow> 'a yup_schema \<Rightarrow> 'a \<Rightarrow> validation_result" where
  "yupResolver field sch v =
     (case failed_tests sch v of [] \<Rightarrow> Valid | m # _ \<Rightarrow> Invalid [(field, m)])"

definition projectNameSchema :: "string yup_schema" where
  "projectNameSchema =
     min_len 3 ''Project name must be at least 3 characters''
       (required ''Project name is required'' yup_string)"

definition analysisDescriptionSchema :: "string yup_schema" where
  "analysisDescriptionSchema =
     min_len 10 ''Please provide more details (at least 10 characters)''
       (required ''Analysis description is required'' yup_string)"

text \<open>The validation of step 1 and of step 2: the resolver of each form on its field.\<close>

definition resolveStep1 :: "string \<Rightarrow> validation_result" where
  "resolveStep1 v = yupResolver ''projectName'' projectNameSchema v"

definition resolveStep2 :: "string \<Rightarrow> validation_result" where
  "resolveStep2 v = yupResolver ''analysisDescription'' analysisDescriptionSchema v"

text \<open>
  A selected file, as far as the components read it: its name and its size in bytes.
\<close>

record file_handle =
  file_name :: string
  file_size :: nat

text \<open>
  \<^verbatim>\<open>fileUploadSchema\<close> of MultiStepForm.jsx. The value of the field is the selection of
  the file input, \<open>Some fs\<close>, or \<^verbatim>\<open>undefined\<close> while the input has given none, which is
  \<open>None\<close> here and which the test lets pass (\<^verbatim>\<open>!value\<close>). \<^verbatim>\<open>null\<close> is not a value of
  this type: a file input does not give it, and yup refuses it before any test runs.
\<close>

definition fileSize :: "file_handle list option \<Rightarrow> bool" where
  "fileSize value =
     (case value of
        None \<Rightarrow> True
      | Some fs \<Rightarrow>
          if length fs = 0 then True
          else list_all (\<lambda>f. file_size f \<le> 5 * 1024 * 1024) fs)"

definition fileUploadSchema :: "file_handle list option yup_schema" where
  "fileUploadSchema = [(''File size is too large'', fileSize)]"

definition resolveStep3 :: "file_handle list option \<Rightarrow> validation_result" where
  "resolveStep3 v = yupResolver ''files'' fileUploadSchema v"

text \<open>
  The specification speaks of the length of a field "after trimming". This is trimming as
  the specification words it, written out to compare it with what the schemas do: leading
  and trailing white space removed.
\<close>

definition is_white_space :: "char \<Rightarrow> bool" where
  "is_white_space c =
     (c = CHR '' '' \<or> c = CHR 0x09 \<or> c = CHR 0x0A \<or> c = CHR 0x0B \<or> c = CHR 0x0C \<or> c = CHR 0x0D)"

definition trim_spec :: "string \<Rightarrow> string" where
  "trim_spec s = rev (dropWhile is_white_space (rev (dropWhile is_white_space s)))"

section \<open>The wizard of StepForm.jsx\<close>

text \<open>
  The state variables of the component (\<^verbatim>\<open>useState\<close>): \<open>files\<close> is the list of
  selected files, \<open>submitError\<close> is \<^verbatim>\<open>null\<close> (\<open>None\<close>) or a message.
\<close>

record wizard =
  step :: nat
  projectName :: string
  analysisDescription :: string
  files :: "file_handle list"
  isSubmitting :: bool
  submitError :: "string option"
  submitSuccess :: bool

text \<open>
  What surrounds the state variables: the errors of the two forms of react-hook-form
  (\<^verbatim>\<open>formState.errors\<close>, a field name with its message), the calls of
  \<^verbatim>\<open>toast.error\<close> in order (the argument is \<open>None\<close> when it is \<^verbatim>\<open>undefined\<close>), the
  pending timers of the simulated API call (the time in milliseconds at which each is
  due, oldest first), the number of such calls started so far, the clock in
  milliseconds, the \<^verbatim>\<open>disabled\<close> attribute of the DONE button as the last render left
  it, and the number of calls of \<^verbatim>\<open>axios.post\<close>.
\<close>

record ui =
  wiz :: wizard
  errorsStep1 :: "(string \<times> string) list"
  errorsStep2 :: "(string \<times> string) list"
  toasts :: "string option list"
  timers :: "nat list"
  apiCalls :: nat
  now :: nat
  doneDisabled :: bool
  axiosPosts :: nat

definition init :: ui where
  "init =
     \<lparr>wiz = \<lparr>step = 1, projectName = [], analysisDescription = [], files = [],
             isSubmitting = False, submitError = None, submitSuccess = False\<rparr>,
      errorsStep1 = [], errorsStep2 = [], toasts = [], timers = [], apiCalls = 0,
      now = 0, doneDisabled = False, axiosPosts = 0\<rparr>"

definition setStep :: "nat \<Rightarrow> ui \<Rightarrow> ui" where
  "setStep n u = u\<lparr>wiz := (wiz u)\<lparr>step := n\<rparr>\<rparr>"

definition setProjectName :: "string \<Rightarrow> ui \<Rightarrow> ui" where
  "setProjectName s u = u\<lparr>wiz := (wiz u)\<lparr>projectName := s\<rparr>\<rparr>"

definition setAnalysisDescription :: "string \<Rightarrow> ui \<Rightarrow> ui" where
  "setAnalysisDescription s u = u\<lparr>wiz := (wiz u)\<lparr>analysisDescription := s\<rparr>\<rparr>"

definition setFiles :: "file_handle list \<Rightarrow> ui \<Rightarrow> ui" where
  "setFiles fs u = u\<lparr>wiz := (wiz u)\<lparr>files := fs\<rparr>\<rparr>"

definition setIsSubmitting :: "bool \<Rightarrow> ui \<Rightarrow> ui" where
  "setIsSubmitting b u = u\<lparr>wiz := (wiz u)\<lparr>isSubmitting := b\<rparr>\<rparr>"

definition setSubmitError :: "string option \<Rightarrow> ui \<Rightarrow> ui" where
  "setSubmitError e u = u\<lparr>wiz := (wiz u)\<lparr>submitError := e\<rparr>\<rparr>"

definition setSubmitSuccess :: "bool \<Rightarrow> ui \<Rightarrow> ui" where
  "setSubmitSuccess b u = u\<lparr>wiz := (wiz u)\<lparr>submitSuccess := b\<rparr>\<rparr>"

definition toast_error :: "string option \<Rightarrow> ui \<Rightarrow> ui" where
  "toast_error m u = u\<lparr>toasts := toasts u @ [m]\<rparr>"

definition handleFileChange :: "file_handle list \<Rightarrow> ui \<Rightarrow> ui" where
  "handleFileChange fs u = setFiles fs u"

text \<open>
  \<^verbatim>\<open>onStep1Submit(data)\<close>. \<^verbatim>\<open>triggerStep1()\<close> validates the current value of the form,
  \<open>formValue\<close>, and stores the errors it finds; \<open>data\<close> is the argument of the handler;
  \<open>errs\<close> is \<^verbatim>\<open>errorsStep1\<close> as the handler captured it at the last render, which is
  what the \<^verbatim>\<open>else\<close> branch reads (\<^verbatim>\<open>errorsStep1.projectName?.message\<close>).
\<close>

definition onStep1Submit :: "(string \<times> string) list \<Rightarrow> string \<Rightarrow> string \<Rightarrow> ui \<Rightarrow> ui" where
  "onStep1Submit errs formValue data u =
     (case resolveStep1 formValue of
        Valid \<Rightarrow> setStep 2 (setProjectName data (u\<lparr>errorsStep1 := []\<rparr>))
      | Invalid e \<Rightarrow> toast_error (map_of errs ''projectName'') (u\<lparr>errorsStep1 := e\<rparr>))"

definition onStep2Submit :: "string \<Rightarrow> string \<Rightarrow> ui \<Rightarrow> ui" where
  "onStep2Submit formValue data u =
     (case resolveStep2 formValue of
        Valid \<Rightarrow> setStep 3 (setAnalysisDescription data (u\<lparr>errorsStep2 := []\<rparr>))
      | Invalid e \<Rightarrow> u\<lparr>errorsStep2 := e\<rparr>)"

text \<open>
  The forms submit through \<^verbatim>\<open>handleStep1(onStep1Submit)\<close> and
  \<^verbatim>\<open>handleStep2(onStep2Submit)\<close>, the \<^verbatim>\<open>handleSubmit\<close> of react-hook-form: it runs the
  resolver on the value \<open>v\<close> of the form, and calls the handler with that value only
  when the resolver finds no error; otherwise it stores the errors in the state of the
  form and does not call the handler.
\<close>

definition handleStep1 :: "string \<Rightarrow> ui \<Rightarrow> ui" where
  "handleStep1 v u =
     (case resolveStep1 v of
        Valid \<Rightarrow> onStep1Submit (errorsStep1 u) v v (u\<lparr>errorsStep1 := []\<rparr>)
      | Invalid e \<Rightarrow> u\<lparr>errorsStep1 := e\<rparr>)"

definition handleStep2 :: "string \<Rightarrow> ui \<Rightarrow> ui" where
  "handleStep2 v u =
     (case resolveStep2 v of
        Valid \<Rightarrow> onStep2Submit v v (u\<lparr>errorsStep2 := []\<rparr>)
      | Invalid e \<Rightarrow> u\<lparr>errorsStep2 := e\<rparr>)"

definition handleSkipFiles :: "ui \<Rightarrow> ui" where
  "handleSkipFiles u = setStep 4 u"

text \<open>
  \<^verbatim>\<open>onSubmit\<close> awaits a promise, so it runs in two parts. An awaited promise settles
  either way. The value of a rejection is \<^verbatim>\<open>null\<close> or \<^verbatim>\<open>undefined\<close>, on which reading
  \<^verbatim>\<open>error.response\<close> throws, or an object, of which the handlers read
  \<^verbatim>\<open>error.response?.data?.message\<close> (\<open>None\<close> when a link of the chain is absent).
\<close>

datatype rejection = Nullish | ErrorObject "string option"

datatype settled = Resolved | Rejected rejection

text \<open>
  The part before \<^verbatim>\<open>await\<close>. The form data built in the first lines of the handler is
  handed to nobody and leaves no trace in the state. The promise is
  \<^verbatim>\<open>new Promise(resolve => setTimeout(resolve, 1500))\<close>: one more simulated call, and
  one more pending timer, due 1500 milliseconds from now. \<^verbatim>\<open>axios\<close> is imported and
  never called. The handler reads \<^verbatim>\<open>isSubmitting\<close> nowhere.
\<close>

definition onSubmit_start :: "ui \<Rightarrow> ui" where
  "onSubmit_start u =
     (setSubmitError None (setIsSubmitting True u))
       \<lparr>timers := timers u @ [now u + 1500], apiCalls := Suc (apiCalls u)\<rparr>"

text \<open>
  \<^verbatim>\<open>error.response?.data?.message || 'An error occurred while submitting the form'\<close>:
  the default stands in for an absent and for an empty message.
\<close>

definition error_reason :: "string option \<Rightarrow> string" where
  "error_reason m =
     (case m of
        None \<Rightarrow> ''An error occurred while submitting the form''
      | Some msg \<Rightarrow>
          if msg = [] then ''An error occurred while submitting the form'' else msg)"

text \<open>
  The part after \<^verbatim>\<open>await\<close>: the rest of \<^verbatim>\<open>try\<close>, or \<^verbatim>\<open>catch\<close>, then \<^verbatim>\<open>finally\<close>. On a
  \<^verbatim>\<open>null\<close> or \<^verbatim>\<open>undefined\<close> rejection the \<^verbatim>\<open>catch\<close> block throws before it calls
  \<^verbatim>\<open>toast.error\<close>; \<^verbatim>\<open>finally\<close> runs all the same.
\<close>

definition onSubmit_settle :: "settled \<Rightarrow> ui \<Rightarrow> ui" where
  "onSubmit_settle r u =
     setIsSubmitting False
       (case r of
          Resolved \<Rightarrow> setSubmitSuccess True u
        | Rejected Nullish \<Rightarrow> u
        | Rejected (ErrorObject m) \<Rightarrow> toast_error (Some (error_reason m)) u)"

text \<open>
  What the user, the clock and the renderer can do. The component renders the success
  panel alone when \<^verbatim>\<open>submitSuccess\<close> holds, and otherwise the controls of the current
  step only: form 1 at step 1, form 2 at step 2, the file input at step 3 with the Next
  button when \<^verbatim>\<open>files.length > 0\<close> and the SKIP button otherwise, the DONE button at
  step 4. An event on a control that is not rendered does not happen. The DONE button
  carries \<^verbatim>\<open>disabled={isSubmitting}\<close>: the attribute is what the last render made of
  \<^verbatim>\<open>isSubmitting\<close>, so a click is delivered to \<^verbatim>\<open>onSubmit\<close> as long as no render has
  disabled the button, whatever \<^verbatim>\<open>isSubmitting\<close> has become since. Time passes; a
  timer fires when it is due, oldest first, and not before. The only callback the timer
  of \<^verbatim>\<open>onSubmit\<close> is given is \<^verbatim>\<open>resolve\<close>, so its firing resolves the promise.
\<close>

datatype event =
    SubmitForm1 string
  | SubmitForm2 string
  | ChooseFiles "file_handle list"
  | ClickNext
  | ClickSkip
  | ClickDone
  | TimeoutFires
  | Elapse nat
  | Render

fun dispatch :: "event \<Rightarrow> ui \<Rightarrow> ui" where
  "dispatch (SubmitForm1 v) u =
     (if \<not> submitSuccess (wiz u) \<and> step (wiz u) = 1 then handleStep1 v u else u)"
| "dispatch (SubmitForm2 v) u =
     (if \<not> submitSuccess (wiz u) \<and> step (wiz u) = 2 then handleStep2 v u else u)"
| "dispatch (ChooseFiles fs) u =
     (if \<not> submitSuccess (wiz u) \<and> step (wiz u) = 3 then handleFileChange fs u else u)"
| "dispatch ClickNext u =
     (if \<not> submitSuccess (wiz u) \<and> step (wiz u) = 3 \<and> length (files (wiz u)) > 0
      then setStep 4 u else u)"
| "dispatch ClickSkip u =
     (if \<not> submitSuccess (wiz u) \<and> step (wiz u) = 3 \<and> \<not> length (files (wiz u)) > 0
      then handleSkipFiles u else u)"
| "dispatch ClickDone u =
     (if \<not> submitSuccess (wiz u) \<and> step (wiz u) = 4 \<and> \<not> doneDisabled u
      then onSubmit_start u else u)"
| "dispatch TimeoutFires u =
     (case timers u of
        [] \<Rightarrow> u
      | d # ds \<Rightarrow> if d \<le> now u then onSubmit_settle Resolved (u\<lparr>timers := ds\<rparr>) else u)"
| "dispatch (Elapse d) u = u\<lparr>now := now u + d\<rparr>"
| "dispatch Render u = u\<lparr>doneDisabled := isSubmitting (wiz u)\<rparr>"

text \<open>A session of the wizard: events one after the other.\<close>

fun run :: "event list \<Rightarrow> ui \<Rightarrow> ui" where
  "run [] u = u"
| "run (e # es) u = run es (dispatch e u)"

text \<open>
  Two sessions from the initial state, used as examples: valid entries up to step 3, and
  on to step 4 with no file.
\<close>

abbreviation to_step3 :: "event list" where
  "to_step3 \<equiv> [SubmitForm1 ''ABC'', SubmitForm2 ''a sufficiently long description'']"

abbreviation to_step4 :: "event list" where
  "to_step4 \<equiv> to_step3 @ [ChooseFiles [], ClickSkip]"

text \<open>
  The submission status of the specification, read off the three state variables that
  carry it.
\<close>

datatype submission_status = Idle | InFlight | Succeeded | Failed string

definition submissionStatus :: "wizard \<Rightarrow> submission_status" where
  "submissionStatus w =
     (if isSubmitting w then InFlight
      else if submitSuccess w then Succeeded
      else case submitError w of Some r \<Rightarrow> Failed r | None \<Rightarrow> Idle)"

text \<open>The invariant of the specification on the two text fields.\<close>

definition wizard_inv :: "wizard \<Rightarrow> bool" where
  "wizard_inv w \<longleftrightarrow>
     (2 \<le> step w \<longrightarrow> projectName w \<noteq> [] \<and> 3 \<le> length (projectName w)) \<and>
     (3 \<le> step w \<longrightarrow> analysisDescription w \<noteq> [] \<and> 10 \<le> length (analysisDescription w))"

section \<open>The submission of MultiStepForm.jsx\<close>























section \<open>The Typewriter of StepForm.jsx\<close>

text \<open>
  The props \<^verbatim>\<open>text\<close>, \<^verbatim>\<open>speed\<close> and \<^verbatim>\<open>delay\<close>, the two state variables, and the
  pending \<^verbatim>\<open>setTimeout\<close> of the first effect, if any: the \<^verbatim>\<open>currentIndex\<close> and the
  \<^verbatim>\<open>text\<close> its callback captured, and its duration in milliseconds.
\<close>

record typewriter =
  text_prop :: string
  speed :: nat
  delay :: nat
  displayedText :: string
  currentIndex :: nat
  pending :: "(nat \<times> string \<times> nat) option"

text \<open>
  The first effect, run after a render: its cleanup has cleared the timeout of the
  previous run, and it sets a new one when \<^verbatim>\<open>text\<close> is not empty.
\<close>

definition typing_effect :: "typewriter \<Rightarrow> typewriter" where
  "typing_effect t =
     t\<lparr>pending :=
          (if text_prop t \<noteq> []
           then Some (currentIndex t, text_prop t,
                      if currentIndex t = 0 then delay t else speed t)
           else None)\<rparr>"

text \<open>The second effect: \<^verbatim>\<open>setDisplayedText('')\<close> and \<^verbatim>\<open>setCurrentIndex(0)\<close>.\<close>

definition reset_effect :: "typewriter \<Rightarrow> typewriter" where
  "reset_effect t = t\<lparr>displayedText := [], currentIndex := 0\<rparr>"

text \<open>
  A render after \<open>prev\<close>: the first effect runs again only when one of its dependencies
  \<^verbatim>\<open>[currentIndex, text, speed, delay]\<close> has changed.
\<close>

definition typing_deps :: "typewriter \<Rightarrow> nat \<times> string \<times> nat \<times> nat" where
  "typing_deps t = (currentIndex t, text_prop t, speed t, delay t)"

definition rerender :: "typewriter \<Rightarrow> typewriter \<Rightarrow> typewriter" where
  "rerender prev t = (if typing_deps t \<noteq> typing_deps prev then typing_effect t else t)"

text \<open>
  Mounting runs both effects in order; the second one sets the values the state already
  has.
\<close>

definition mount :: "string \<Rightarrow> nat \<Rightarrow> nat \<Rightarrow> typewriter" where
  "mount txt spd dly =
     (let t1 = typing_effect
                 \<lparr>text_prop = txt, speed = spd, delay = dly, displayedText = [],
                  currentIndex = 0, pending = None\<rparr>
      in rerender t1 (reset_effect t1))"

text \<open>
  The pending timeout fires: its callback appends \<^verbatim>\<open>text[currentIndex]\<close> of the values it
  captured and increments the index when \<^verbatim>\<open>currentIndex < text.length\<close>, and does
  nothing otherwise; a change of state renders again.
\<close>

definition fire :: "typewriter \<Rightarrow> typewriter" where
  "fire t =
     (case pending t of
        None \<Rightarrow> t
      | Some (i, txt, ms) \<Rightarrow>
          let t0 = t\<lparr>pending := None\<rparr> in
          if i < length txt
          then rerender t0
                 (t0\<lparr>displayedText := displayedText t0 @ [txt ! i],
                     currentIndex := currentIndex t0 + 1\<rparr>)
          else t0)"

text \<open>
  The parent renders the component with another \<^verbatim>\<open>text\<close>: the render, the first
  effect, the second effect when \<^verbatim>\<open>text\<close> has changed, and the render its updates
  cause.
\<close>

definition setText :: "string \<Rightarrow> typewriter \<Rightarrow> typewriter" where
  "setText txt t =
     (let t1 = rerender t (t\<lparr>text_prop := txt\<rparr>);
          t2 = (if txt \<noteq> text_prop t then reset_effect t1 else t1)
      in rerender t1 t2)"

text \<open>
  The sequence the component shows: the displayed text after each timeout that changes
  it, until no timeout is pending. \<open>n\<close> bounds the number of timeouts looked at.
\<close>

fun produce :: "nat \<Rightarrow> typewriter \<Rightarrow> string list" where
  "produce 0 t = []"
| "produce (Suc n) t =
     (case pending t of
        None \<Rightarrow> []
      | Some p \<Rightarrow>
          (if displayedText (fire t) = displayedText t then [] else [displayedText (fire t)])
          @ produce n (fire t))"

section \<open>Validation results\<close>

lemma failed_tests_projectName:
  "failed_tests projectNameSchema s =
     (if length s = 0 then [''Project name is required''] else []) @
     (if length s < 3 then [''Project name must be at least 3 characters''] else [])"
  by (simp add: failed_tests_def projectNameSchema_def min_len_def required_def yup_string_def)

lemma failed_tests_analysisDescription:
  "failed_tests analysisDescriptionSchema s =
     (if length s = 0 then [''Analysis description is required''] else []) @
     (if length s < 10 then [''Please provide more details (at least 10 characters)''] else [])"
  by (simp add: failed_tests_def analysisDescriptionSchema_def min_len_def required_def
      yup_string_def)

lemma resolveStep1_Valid_iff: "resolveStep1 s = Valid \<longleftrightarrow> 3 \<le> length s"
  by (auto simp: resolveStep1_def yupResolver_def failed_tests_projectName)

lemma resolveStep2_Valid_iff: "resolveStep2 s = Valid \<longleftrightarrow> 10 \<le> length s"
  by (auto simp: resolveStep2_def yupResolver_def failed_tests_analysisDescription)

text \<open>
  C2 (as the schema decides it). The validation of step 1 looks at the raw length of the
  project name, with no trimming: it is Valid exactly when the name has at least 3
  characters; the empty name is Invalid with "Project name is required", and a non-empty
  name of fewer than 3 characters is Invalid with
  "Project name must be at least 3 characters".
\<close>

theorem resolveStep1_raw_length:
  "(resolveStep1 s = Valid) = (3 \<le> length s) \<and>
   resolveStep1 s =
     (if length s = 0 then Invalid [(''projectName'', ''Project name is required'')]
      else if length s < 3
        then Invalid [(''projectName'', ''Project name must be at least 3 characters'')]
      else Valid)"
  by (auto simp: resolveStep1_def yupResolver_def failed_tests_projectName)

theorem resolveStep1_raw_length_witness:
  "resolveStep1 ''ABC'' = Valid \<and>
   resolveStep1 '''' = Invalid [(''projectName'', ''Project name is required'')] \<and>
   resolveStep1 ''ab'' =
     Invalid [(''projectName'', ''Project name must be at least 3 characters'')]"
  using resolveStep1_raw_length [of "''ABC''"] resolveStep1_raw_length [of "''''"]
    resolveStep1_raw_length [of "''ab''"]
  by simp

text \<open>
  C2 as the specification states it, with the length taken after trimming, fails: the
  input "ab " has 3 characters and is Valid, while its trimmed length is 2.
\<close>

theorem resolveStep1_trim_counterexample:
  "\<not> ((resolveStep1 ''ab '' = Valid) = (3 \<le> length (trim_spec ''ab '')))"
  by (simp add: resolveStep1_def yupResolver_def failed_tests_projectName trim_spec_def
      is_white_space_def)

text \<open>
  C3 (as the schema decides it). The validation of step 2 looks at the raw length of the
  description, with no trimming: it is Valid exactly when the description has at least 10
  characters; the empty description is Invalid with "Analysis description is required",
  and a non-empty description of fewer than 10 characters is Invalid with
  "Please provide more details (at least 10 characters)".
\<close>

theorem resolveStep2_raw_length:
  "(resolveStep2 s = Valid) = (10 \<le> length s) \<and>
   resolveStep2 s =
     (if length s = 0
        then Invalid [(''analysisDescription'', ''Analysis description is required'')]
      else if length s < 10
        then Invalid [(''analysisDescription'',
                       ''Please provide more details (at least 10 characters)'')]
      else Valid)"
  by (auto simp: resolveStep2_def yupResolver_def failed_tests_analysisDescription)

theorem resolveStep2_raw_length_witness:
  "resolveStep2 ''0123456789'' = Valid \<and>
   resolveStep2 '''' =
     Invalid [(''analysisDescription'', ''Analysis description is required'')] \<and>
   resolveStep2 ''too short'' =
     Invalid [(''analysisDescription'',
               ''Please provide more details (at least 10 characters)'')]"
  using resolveStep2_raw_length [of "''0123456789''"] resolveStep2_raw_length [of "''''"]
    resolveStep2_raw_length [of "''too short''"]
  by simp

text \<open>
  C3 as the specification states it, with the length taken after trimming, fails: the
  input "too short " has 10 characters and is Valid, while its trimmed length is 9.
\<close>

theorem resolveStep2_trim_counterexample:
  "\<not> ((resolveStep2 ''too short '' = Valid) = (10 \<le> length (trim_spec ''too short '')))"
  by (simp add: resolveStep2_def yupResolver_def failed_tests_analysisDescription
      trim_spec_def is_white_space_def)

text \<open>
  C8. In the variant with the file constraint, the validation of step 3 is Valid exactly
  when every file of the selection has a size of at most 5 MiB (5242880 bytes), the empty
  selection included; otherwise it is Invalid with "File size is too large" for the whole
  selection.
\<close>

theorem resolveStep3_size_cap:
  "(resolveStep3 (Some fs) = Valid) = (\<forall>f \<in> set fs. file_size f \<le> 5242880) \<and>
   resolveStep3 (Some []) = Valid \<and>
   resolveStep3 (Some fs) =
     (if \<forall>f \<in> set fs. file_size f \<le> 5242880 then Valid
      else Invalid [(''files'', ''File size is too large'')])"
  by (auto simp: resolveStep3_def yupResolver_def failed_tests_def fileUploadSchema_def
      fileSize_def list_all_iff)

theorem resolveStep3_size_cap_witness:
  "resolveStep3 (Some [\<lparr>file_name = ''a.csv'', file_size = 5242880\<rparr>]) = Valid \<and>
   resolveStep3 (Some [\<lparr>file_name = ''a.csv'', file_size = 10\<rparr>,
                       \<lparr>file_name = ''b.bin'', file_size = 5242881\<rparr>]) =
     Invalid [(''files'', ''File size is too large'')]"
  using resolveStep3_size_cap [of "[\<lparr>file_name = ''a.csv'', file_size = 5242880\<rparr>]"]
    resolveStep3_size_cap [of "[\<lparr>file_name = ''a.csv'', file_size = 10\<rparr>,
                                \<lparr>file_name = ''b.bin'', file_size = 5242881\<rparr>]"]
  by simp

section \<open>The wizard: sessions and their invariants\<close>

lemmas wiz_defs = handleStep1_def handleStep2_def onStep1Submit_def onStep2Submit_def
  handleSkipFiles_def handleFileChange_def onSubmit_start_def onSubmit_settle_def
  setStep_def setProjectName_def setAnalysisDescription_def setFiles_def setIsSubmitting_def
  setSubmitError_def setSubmitSuccess_def toast_error_def

lemmas resolve_eval = resolveStep1_def resolveStep2_def yupResolver_def
  failed_tests_projectName failed_tests_analysisDescription

lemma run_append: "run (xs @ ys) u = run ys (run xs u)"
  by (induction xs arbitrary: u) simp_all

lemma init_inv: "wizard_inv (wiz init)"
  by (simp add: wizard_inv_def init_def)

lemma dispatch_preserves_inv: "wizard_inv (wiz u) \<Longrightarrow> wizard_inv (wiz (dispatch e u))"
  by (cases e)
    (auto simp: wizard_inv_def wiz_defs resolveStep1_Valid_iff resolveStep2_Valid_iff
      split: validation_result.splits list.splits)

lemma run_preserves_inv: "wizard_inv (wiz u) \<Longrightarrow> wizard_inv (wiz (run es u))"
  by (induction es arbitrary: u) (simp_all add: dispatch_preserves_inv)

text \<open>No event of the component reaches a call of \<^verbatim>\<open>toast.error\<close> or of \<^verbatim>\<open>axios.post\<close>.\<close>

lemma dispatch_toasts: "toasts (dispatch e u) = toasts u"
  by (cases e) (auto simp: wiz_defs split: validation_result.splits list.splits)

lemma run_toasts: "toasts (run es u) = toasts u"
  by (induction es arbitrary: u) (simp_all add: dispatch_toasts)

lemma dispatch_axiosPosts: "axiosPosts (dispatch e u) = axiosPosts u"
  by (cases e) (auto simp: wiz_defs split: validation_result.splits list.splits)

lemma run_axiosPosts: "axiosPosts (run es u) = axiosPosts u"
  by (induction es arbitrary: u) (simp_all add: dispatch_axiosPosts)

lemma dispatch_submitError:
  "submitError (wiz u) = None \<Longrightarrow> submitError (wiz (dispatch e u)) = None"
  by (cases e) (auto simp: wiz_defs split: validation_result.splits list.splits)

lemma run_submitError:
  "submitError (wiz u) = None \<Longrightarrow> submitError (wiz (run es u)) = None"
  by (induction es arbitrary: u) (simp_all add: dispatch_submitError)

text \<open>
  C1. In every state a session of the wizard reaches from the initial state,
  \<open>projectName\<close> is non-empty and has at least 3 characters whenever \<open>step\<close> is at
  least 2, and \<open>analysisDescription\<close> is non-empty and has at least 10 characters
  whenever \<open>step\<close> is at least 3; and every operation (each event of the component, in
  any state) preserves this invariant.
\<close>

theorem wizard_invariant:
  "wizard_inv (wiz (run es init)) \<and>
   (wizard_inv (wiz u) \<longrightarrow> wizard_inv (wiz (dispatch e u)))"
  by (simp add: run_preserves_inv init_inv dispatch_preserves_inv)

theorem wizard_invariant_witness:
  "step (wiz (run to_step3 init)) = 3 \<and>
   projectName (wiz (run to_step3 init)) = ''ABC'' \<and>
   wizard_inv (wiz (run to_step3 init)) \<and>
   step (wiz (dispatch ClickSkip (run to_step3 init))) = 4 \<and>
   wizard_inv (wiz (dispatch ClickSkip (run to_step3 init)))"
  using wizard_invariant [of "to_step3" "run to_step3 init" ClickSkip]
  by (simp add: init_def wiz_defs resolve_eval)

text \<open>
  C4, at an input where the code departs from it. Submitting form 1 with the invalid name
  "ab" in the initial state leaves the wizard state unchanged and stores the field error
  in the errors of the form, but calls \<^verbatim>\<open>toast.error\<close> not at all: the form validates
  before it calls \<^verbatim>\<open>onStep1Submit\<close>, whose \<^verbatim>\<open>else\<close> branch is the only place of the
  notification. That branch, were it run on this input, would be given the errors of
  the last render, which hold no message yet.
\<close>

theorem invalid_step1_no_toast:
  "toasts (dispatch (SubmitForm1 ''ab'') init) = [] \<and>
   wiz (dispatch (SubmitForm1 ''ab'') init) = wiz init \<and>
   errorsStep1 (dispatch (SubmitForm1 ''ab'') init) =
     [(''projectName'', ''Project name must be at least 3 characters'')] \<and>
   toasts (onStep1Submit (errorsStep1 init) ''ab'' ''ab'' init) = [None]"
  by (simp add: init_def wiz_defs resolve_eval)


text \<open>
  C7. At step 3, with no file selected, skipping moves \<open>step\<close> to 4 and changes nothing
  else, and advancing with files changes nothing at all; with a file selected, advancing
  with files moves \<open>step\<close> to 4 and changes nothing else, so that the selection at the
  review is the one made.
\<close>

theorem step3_advance:
  assumes "step (wiz u) = 3" and "\<not> submitSuccess (wiz u)"
  shows "(files (wiz u) = [] \<longrightarrow>
            dispatch ClickSkip u = u\<lparr>wiz := (wiz u)\<lparr>step := 4\<rparr>\<rparr> \<and> dispatch ClickNext u = u) \<and>
         (files (wiz u) \<noteq> [] \<longrightarrow>
            dispatch ClickNext u = u\<lparr>wiz := (wiz u)\<lparr>step := 4\<rparr>\<rparr> \<and>
            files (wiz (dispatch ClickNext u)) = files (wiz u))"
  using assms by (auto simp: wiz_defs)

theorem step3_advance_witness:
  "step (wiz (run to_step3 init)) = 3 \<and>
   files (wiz (run to_step3 init)) = [] \<and>
   step (wiz (dispatch ClickSkip (run to_step3 init))) = 4 \<and>
   dispatch ClickNext (run to_step3 init) = run to_step3 init \<and>
   step (wiz (dispatch ClickNext
                (dispatch (ChooseFiles [\<lparr>file_name = ''data.csv'', file_size = 2048\<rparr>])
                   (run to_step3 init)))) = 4 \<and>
   files (wiz (dispatch ClickNext
                 (dispatch (ChooseFiles [\<lparr>file_name = ''data.csv'', file_size = 2048\<rparr>])
                    (run to_step3 init)))) =
     [\<lparr>file_name = ''data.csv'', file_size = 2048\<rparr>]"
  using step3_advance [of "run to_step3 init"]
    step3_advance [of "dispatch (ChooseFiles [\<lparr>file_name = ''data.csv'', file_size = 2048\<rparr>])
                         (run to_step3 init)"]
  by (simp add: init_def wiz_defs resolve_eval)

text \<open>
  The clock never goes back. A submission stays in flight while every pending timer is
  due later than now; and a submission whose oldest timer is due has succeeded as soon
  as a timer fires.
\<close>

lemma dispatch_now: "now u \<le> now (dispatch e u)"
  by (cases e) (auto simp: wiz_defs split: validation_result.splits list.splits)

lemma run_now: "now u \<le> now (run es u)"
proof (induction es arbitrary: u)
  case Nil
  show ?case by simp
next
  case (Cons e es)
  have "now u \<le> now (dispatch e u)" by (rule dispatch_now)
  also have "\<dots> \<le> now (run es (dispatch e u))" by (rule Cons.IH)
  finally show ?case by simp
qed

lemma flight_dispatch:
  assumes "step (wiz v) = 4" and "isSubmitting (wiz v)" and "\<not> submitSuccess (wiz v)"
    and "list_all (\<lambda>d. T \<le> d) (timers v)" and "T \<le> now v + 1500"
    and "now (dispatch e v) < T"
  shows "step (wiz (dispatch e v)) = 4 \<and> isSubmitting (wiz (dispatch e v)) \<and>
         \<not> submitSuccess (wiz (dispatch e v)) \<and>
         list_all (\<lambda>d. T \<le> d) (timers (dispatch e v)) \<and> T \<le> now (dispatch e v) + 1500"
  using assms by (cases e) (auto simp: wiz_defs split: list.splits)

lemma flight_run:
  assumes "step (wiz v) = 4" and "isSubmitting (wiz v)" and "\<not> submitSuccess (wiz v)"
    and "list_all (\<lambda>d. T \<le> d) (timers v)" and "T \<le> now v + 1500"
    and "now (run es v) < T"
  shows "isSubmitting (wiz (run es v)) \<and> \<not> submitSuccess (wiz (run es v))"
  using assms
proof (induction es arbitrary: v)
  case Nil
  then show ?case by simp
next
  case (Cons e es)
  have "now (dispatch e v) \<le> now (run es (dispatch e v))" by (rule run_now)
  with Cons.prems(6) have lt: "now (dispatch e v) < T" by simp
  have "step (wiz (dispatch e v)) = 4 \<and> isSubmitting (wiz (dispatch e v)) \<and>
         \<not> submitSuccess (wiz (dispatch e v)) \<and>
         list_all (\<lambda>d. T \<le> d) (timers (dispatch e v)) \<and> T \<le> now (dispatch e v) + 1500"
    using Cons.prems(1-5) lt by (rule flight_dispatch)
  then show ?case using Cons.IH [of "dispatch e v"] Cons.prems(6) by simp
qed

lemma landing_dispatch:
  assumes "step (wiz v) = 4"
    and "if submitSuccess (wiz v) then \<not> isSubmitting (wiz v)
         else timers v \<noteq> [] \<and> hd (timers v) \<le> T"
  shows "step (wiz (dispatch e v)) = 4 \<and>
         (if submitSuccess (wiz (dispatch e v)) then \<not> isSubmitting (wiz (dispatch e v))
          else timers (dispatch e v) \<noteq> [] \<and> hd (timers (dispatch e v)) \<le> T)"
  using assms by (cases e) (auto simp: wiz_defs split: list.splits if_splits)

lemma landing_run:
  assumes "step (wiz v) = 4"
    and "if submitSuccess (wiz v) then \<not> isSubmitting (wiz v)
         else timers v \<noteq> [] \<and> hd (timers v) \<le> T"
  shows "step (wiz (run es v)) = 4 \<and>
         (if submitSuccess (wiz (run es v)) then \<not> isSubmitting (wiz (run es v))
          else timers (run es v) \<noteq> [] \<and> hd (timers (run es v)) \<le> T)"
  using assms
proof (induction es arbitrary: v)
  case Nil
  then show ?case by simp
next
  case (Cons e es)
  have "step (wiz (dispatch e v)) = 4 \<and>
         (if submitSuccess (wiz (dispatch e v)) then \<not> isSubmitting (wiz (dispatch e v))
          else timers (dispatch e v) \<noteq> [] \<and> hd (timers (dispatch e v)) \<le> T)"
    using Cons.prems by (rule landing_dispatch)
  then show ?case using Cons.IH [of "dispatch e v"] by simp
qed

lemma landing_fires:
  assumes "if submitSuccess (wiz v) then \<not> isSubmitting (wiz v)
           else timers v \<noteq> [] \<and> hd (timers v) \<le> T"
    and "T \<le> now v"
  shows "submissionStatus (wiz (dispatch TimeoutFires v)) = Succeeded"
  using assms by (auto simp: wiz_defs submissionStatus_def split: list.splits if_splits)

lemma fires_succeeds:
  "dispatch TimeoutFires v \<noteq> v \<longrightarrow>
     submitSuccess (wiz (dispatch TimeoutFires v)) \<and> \<not> isSubmitting (wiz (dispatch TimeoutFires v))"
  by (auto simp: wiz_defs split: list.splits)

text \<open>
  C10. In the component as shipped, a submission from step 4 (with no earlier one
  pending) is in flight at once, with one timer due 1500 milliseconds later; whatever
  events follow, it stays in flight as long as that time has not come; and once it has
  come, the firing of the timer gives the status Succeeded with no error recorded. No
  session, from whatever state, calls \<^verbatim>\<open>toast.error\<close> or \<^verbatim>\<open>axios.post\<close>, and a timer
  that fires always runs the rest of \<^verbatim>\<open>try\<close>: the awaited promise only resolves and
  the \<^verbatim>\<open>catch\<close> branch is never run.
\<close>

theorem simulated_submit_succeeds:
  assumes "step (wiz u) = 4" and "\<not> submitSuccess (wiz u)" and "\<not> doneDisabled u"
    and "timers u = []"
  shows "submissionStatus (wiz (dispatch ClickDone u)) = InFlight \<and>
         timers (dispatch ClickDone u) = [now u + 1500] \<and>
         (now (run es (dispatch ClickDone u)) < now u + 1500 \<longrightarrow>
            submissionStatus (wiz (run es (dispatch ClickDone u))) = InFlight) \<and>
         (now u + 1500 \<le> now (run es (dispatch ClickDone u)) \<longrightarrow>
            submissionStatus (wiz (run (es @ [TimeoutFires]) (dispatch ClickDone u))) =
              Succeeded \<and>
            submitError (wiz (run (es @ [TimeoutFires]) (dispatch ClickDone u))) = None) \<and>
         toasts (run es' v) = toasts v \<and>
         axiosPosts (run es' v) = axiosPosts v \<and>
         (dispatch TimeoutFires v \<noteq> v \<longrightarrow>
            submitSuccess (wiz (dispatch TimeoutFires v)) \<and>
            \<not> isSubmitting (wiz (dispatch TimeoutFires v)))"
proof -
  define u1 where "u1 = dispatch ClickDone u"
  define T where "T = now u + 1500"
  have u1: "step (wiz u1) = 4" "isSubmitting (wiz u1)" "\<not> submitSuccess (wiz u1)"
    and tm: "timers u1 = [T]" and nw: "now u1 = now u" and er: "submitError (wiz u1) = None"
    using assms by (simp_all add: u1_def T_def wiz_defs)
  have a: "submissionStatus (wiz u1) = InFlight"
    using u1 by (simp add: submissionStatus_def)
  have b: "now (run es u1) < T \<longrightarrow> submissionStatus (wiz (run es u1)) = InFlight"
  proof
    assume lt: "now (run es u1) < T"
    have all: "list_all (\<lambda>d. T \<le> d) (timers u1)"
      by (simp add: tm)
    have le: "T \<le> now u1 + 1500"
      by (simp add: nw T_def)
    have "isSubmitting (wiz (run es u1)) \<and> \<not> submitSuccess (wiz (run es u1))"
      using u1 all le lt by (rule flight_run)
    then show "submissionStatus (wiz (run es u1)) = InFlight"
      by (simp add: submissionStatus_def)
  qed
  have c: "T \<le> now (run es u1) \<longrightarrow>
      submissionStatus (wiz (run (es @ [TimeoutFires]) u1)) = Succeeded \<and>
      submitError (wiz (run (es @ [TimeoutFires]) u1)) = None"
  proof
    assume ge: "T \<le> now (run es u1)"
    have "step (wiz (run es u1)) = 4 \<and>
         (if submitSuccess (wiz (run es u1)) then \<not> isSubmitting (wiz (run es u1))
          else timers (run es u1) \<noteq> [] \<and> hd (timers (run es u1)) \<le> T)"
      by (rule landing_run) (simp_all add: u1 tm)
    then have "if submitSuccess (wiz (run es u1)) then \<not> isSubmitting (wiz (run es u1))
          else timers (run es u1) \<noteq> [] \<and> hd (timers (run es u1)) \<le> T"
      by (rule conjunct2)
    then have "submissionStatus (wiz (dispatch TimeoutFires (run es u1))) = Succeeded"
      using ge by (rule landing_fires)
    then have "submissionStatus (wiz (run (es @ [TimeoutFires]) u1)) = Succeeded"
      by (simp only: run_append run.simps)
    moreover have "submitError (wiz (run (es @ [TimeoutFires]) u1)) = None"
      using er by (rule run_submitError)
    ultimately show "submissionStatus (wiz (run (es @ [TimeoutFires]) u1)) = Succeeded \<and>
      submitError (wiz (run (es @ [TimeoutFires]) u1)) = None"
      by (rule conjI)
  qed
  have d: "toasts (run es' v) = toasts v \<and> axiosPosts (run es' v) = axiosPosts v \<and>
         (dispatch TimeoutFires v \<noteq> v \<longrightarrow>
            submitSuccess (wiz (dispatch TimeoutFires v)) \<and>
            \<not> isSubmitting (wiz (dispatch TimeoutFires v)))"
    using fires_succeeds [of v] by (simp only: run_toasts run_axiosPosts simp_thms)
  from a tm b c d show ?thesis
    unfolding u1_def T_def by blast
qed

theorem simulated_submit_succeeds_witness:
  "step (wiz (run to_step4 init)) = 4 \<and>
   submissionStatus (wiz (run (to_step4 @ [ClickDone]) init)) = InFlight \<and>
   timers (run (to_step4 @ [ClickDone]) init) = [1500] \<and>
   submissionStatus
     (wiz (run (to_step4 @ [ClickDone, Render, ClickDone, Elapse 1499, TimeoutFires]) init)) =
     InFlight \<and>
   submissionStatus
     (wiz (run (to_step4 @ [ClickDone, Render, Elapse 1500, TimeoutFires]) init)) = Succeeded \<and>
   toasts (run (to_step4 @ [ClickDone, Render, Elapse 1500, TimeoutFires]) init) = [] \<and>
   axiosPosts (run (to_step4 @ [ClickDone, Render, Elapse 1500, TimeoutFires]) init) = 0"
  using simulated_submit_succeeds
      [of "run to_step4 init" "[Render, ClickDone, Elapse 1499, TimeoutFires]"
        "to_step4 @ [ClickDone, Render, Elapse 1500, TimeoutFires]" init]
    simulated_submit_succeeds
      [of "run to_step4 init" "[Render, Elapse 1500]"
        "to_step4 @ [ClickDone, Render, Elapse 1500, TimeoutFires]" init]
  by (simp add: init_def wiz_defs resolve_eval submissionStatus_def)

section \<open>The submission with a transport\<close>





section \<open>The Typewriter: what it shows\<close>

lemmas tw_defs = mount_def fire_def setText_def rerender_def typing_deps_def typing_effect_def
  reset_effect_def

lemma mount_eq:
  "mount txt spd dly =
     \<lparr>text_prop = txt, speed = spd, delay = dly, displayedText = take 0 txt, currentIndex = 0,
      pending = (if txt \<noteq> [] then Some (0, txt, dly) else None)\<rparr>"
  by (simp add: tw_defs)

lemma fire_step:
  assumes "k < length txt"
  shows "fire \<lparr>text_prop = txt, speed = spd, delay = dly, displayedText = take k txt,
               currentIndex = k, pending = Some (k, txt, ms)\<rparr> =
         \<lparr>text_prop = txt, speed = spd, delay = dly, displayedText = take (Suc k) txt,
          currentIndex = Suc k, pending = Some (Suc k, txt, spd)\<rparr>"
  using assms by (auto simp: tw_defs Let_def take_Suc_conv_app_nth)

lemma fire_last:
  assumes "\<not> k < length txt"
  shows "fire \<lparr>text_prop = txt, speed = spd, delay = dly, displayedText = d,
               currentIndex = k, pending = Some (k, txt, ms)\<rparr> =
         \<lparr>text_prop = txt, speed = spd, delay = dly, displayedText = d,
          currentIndex = k, pending = None\<rparr>"
  using assms by (simp add: tw_defs Let_def)

lemma produce_idle: "pending t = None \<Longrightarrow> produce n t = []"
  by (cases n) simp_all

lemma produce_from:
  "k \<le> length txt \<Longrightarrow> length txt - k < n \<Longrightarrow>
   produce n \<lparr>text_prop = txt, speed = spd, delay = dly, displayedText = take k txt,
              currentIndex = k, pending = Some (k, txt, ms)\<rparr> =
   map (\<lambda>j. take j txt) [Suc k..<Suc (length txt)]"
proof (induction n arbitrary: k ms)
  case 0
  then show ?case by simp
next
  case (Suc n)
  show ?case
  proof (cases "k < length txt")
    case True
    have ne: "take (Suc k) txt \<noteq> take k txt"
    proof
      assume "take (Suc k) txt = take k txt"
      then have "length (take (Suc k) txt) = length (take k txt)" by simp
      with True show False by simp
    qed
    have "produce n \<lparr>text_prop = txt, speed = spd, delay = dly,
              displayedText = take (Suc k) txt, currentIndex = Suc k,
              pending = Some (Suc k, txt, spd)\<rparr> =
          map (\<lambda>j. take j txt) [Suc (Suc k)..<Suc (length txt)]"
      using Suc.prems True by (intro Suc.IH) auto
    moreover have "[Suc k..<Suc (length txt)] = Suc k # [Suc (Suc k)..<Suc (length txt)]"
      using True by (simp add: upt_conv_Cons)
    ultimately show ?thesis
      using ne by (simp add: fire_step [OF True] del: upt_Suc)
  next
    case False
    with Suc.prems have "k = length txt" by simp
    then show ?thesis
      using False by (simp add: fire_last produce_idle)
  qed
qed

lemma produce_mount:
  assumes "length txt < n"
  shows "produce n (mount txt spd dly) = map (\<lambda>j. take j txt) [1..<Suc (length txt)]"
proof (cases "txt = []")
  case True
  then show ?thesis by (simp add: mount_eq produce_idle)
next
  case False
  have "produce n \<lparr>text_prop = txt, speed = spd, delay = dly, displayedText = take 0 txt,
              currentIndex = 0, pending = Some (0, txt, dly)\<rparr> =
        map (\<lambda>j. take j txt) [Suc 0..<Suc (length txt)]"
    using assms by (intro produce_from) simp_all
  with False show ?thesis by (simp add: mount_eq)
qed

lemma setText_restart:
  "txt \<noteq> text_prop t \<Longrightarrow> setText txt t = mount txt (speed t) (delay t)"
  by (cases t) (auto simp: tw_defs)

text \<open>
  C9. Mounted on "hi" with an initial delay of 0 and a speed of 10, the Typewriter shows
  exactly "h" and then "hi", and after the third timeout none is pending, so nothing
  follows. When the text changes to another one, in any state, the component is in the
  state of a fresh mount on the new text: the pending timeout of the old text is gone,
  the displayed text is empty, and what it shows from there on are the prefixes of the
  new text, one character longer each time, and nothing else.
\<close>

theorem typewriter_reveal:
  "(2 < n \<longrightarrow> produce n (mount ''hi'' 10 0) = [''h'', ''hi'']) \<and>
   pending (fire (fire (fire (mount ''hi'' 10 0)))) = None \<and>
   (txt \<noteq> text_prop t \<longrightarrow>
      setText txt t = mount txt (speed t) (delay t) \<and>
      displayedText (setText txt t) = [] \<and>
      (length txt < m \<longrightarrow>
         produce m (setText txt t) = map (\<lambda>j. take j txt) [1..<Suc (length txt)]))"
proof -
  have a: "2 < n \<longrightarrow> produce n (mount ''hi'' 10 0) = [''h'', ''hi'']"
    using produce_mount [of "''hi''" n 10 0] by (simp add: upt_rec)
  have b: "pending (fire (fire (fire (mount ''hi'' 10 0)))) = None"
    by (simp add: mount_eq fire_step [of 0 "''hi''", simplified]
        fire_step [of 1 "''hi''", simplified] fire_last)
  have c: "txt \<noteq> text_prop t \<longrightarrow>
      setText txt t = mount txt (speed t) (delay t) \<and>
      displayedText (setText txt t) = [] \<and>
      (length txt < m \<longrightarrow>
         produce m (setText txt t) = map (\<lambda>j. take j txt) [1..<Suc (length txt)])"
    by (simp add: setText_restart produce_mount) (simp add: mount_eq)
  from a b c show ?thesis by blast
qed

theorem typewriter_reveal_witness:
  "produce 3 (mount ''hi'' 10 0) = [''h'', ''hi''] \<and>
   setText ''yo'' (fire (mount ''hi'' 10 0)) = mount ''yo'' 10 0 \<and>
   produce 3 (setText ''yo'' (fire (mount ''hi'' 10 0))) = [''y'', ''yo'']"
  using typewriter_reveal [of 3 "''yo''" "fire (mount ''hi'' 10 0)" 3]
  by (simp add: tw_defs upt_rec)

end
